theory Spec2Isabelle
  imports Main "HOL-Library.Multiset"
begin

section \<open>Data model (src/main.py)\<close>

text \<open>
  A \<open>datetime\<close> is modelled as an integer count of microseconds; \<open>datetime.utcnow()\<close>
  is an input of every operation that reads the clock.
\<close>

type_synonym datetime = int

text \<open>
  One row of the table \<open>shortlinks\<close> (class \<open>ShortLink\<close>). The columns \<open>id\<close> and
  \<open>note\<close> are named \<open>link_id\<close> and \<open>link_note\<close> here. \<open>click_count\<close> is a signed
  integer, as in Python and in the column type.
\<close>

record ShortLink =
  link_id :: nat
  short_code :: string
  target_url :: string
  created_at :: datetime
  click_count :: int
  last_clicked_at :: "datetime option"
  active :: bool
  link_note :: "string option"

text \<open>The table: its rows in rowid order (rows are only ever appended or updated).\<close>

type_synonym store = "ShortLink list"

text \<open>
  \<open>CreateLinkRequest\<close>. The field \<open>url\<close> holds \<open>str(payload.url)\<close>: the request body has
  passed the framework's parsing before \<open>create_link\<close> runs.
\<close>

record CreateLinkRequest =
  url :: string
  custom_code :: "string option"
  req_note :: "string option"

record ShortLinkResponse =
  resp_short_code :: string
  resp_short_url :: string
  resp_target_url :: string
  resp_created_at :: datetime
  resp_click_count :: int
  resp_last_clicked_at :: "datetime option"
  resp_active :: bool
  resp_note :: "string option"

record StatsResponse =
  stats_short_code :: string
  stats_target_url :: string
  stats_created_at :: datetime
  stats_click_count :: int
  stats_last_clicked_at :: "datetime option"
  stats_active :: bool
  stats_note :: "string option"

record ListLinksResponse =
  total :: nat
  items :: "ShortLinkResponse list"

text \<open>
  What the handlers raise: \<open>HTTPException(status_code, detail)\<close>, and the database's
  \<open>IntegrityError\<close> when a commit would break \<open>unique=True\<close> on \<open>short_code\<close>.
\<close>

datatype error = HTTPException nat string | IntegrityError

definition CustomCodeTaken :: error where
  "CustomCodeTaken = HTTPException 400 ''Custom code already in use.''"

definition GenerationExhausted :: error where
  "GenerationExhausted = HTTPException 500 ''Failed to generate unique short code.''"

definition NotFound :: error where
  "NotFound = HTTPException 404 ''Link not found.''"

section \<open>Helpers\<close>

text \<open>
  The random source: the stream of numbers the generator hands out, one per call of
  \<open>random.choice\<close>, which indexes its sequence with a number below its length.
\<close>

type_synonym rng = "nat \<Rightarrow> nat"

definition random_choice :: "rng \<Rightarrow> 'a list \<Rightarrow> 'a \<times> rng" where
  "random_choice rnd seq = (seq ! (rnd 0 mod length seq), \<lambda>k. rnd (Suc k))"

definition ascii_letters :: string where
  "ascii_letters = ''abcdefghijklmnopqrstuvwxyz'' @ ''ABCDEFGHIJKLMNOPQRSTUVWXYZ''"

definition digits :: string where
  "digits = ''0123456789''"

text \<open>\<open>generate_short_code\<close>: \<open>length\<close> characters, each a \<open>random.choice(chars)\<close>.\<close>

fun generate_short_code :: "rng \<Rightarrow> nat \<Rightarrow> string \<times> rng" where
  "generate_short_code rnd 0 = ([], rnd)"
| "generate_short_code rnd (Suc n) =
     (let chars = ascii_letters @ digits;
          (c, rnd1) = random_choice rnd chars;
          (cs, rnd2) = generate_short_code rnd1 n
      in (c # cs, rnd2))"

text \<open>\<open>str.rstrip('/')\<close> and \<open>build_short_url\<close>; \<open>BASE_SHORT_URL\<close> is configuration.\<close>

definition rstrip_slash :: "string \<Rightarrow> string" where
  "rstrip_slash s = rev (dropWhile (\<lambda>c. c = CHR ''/'') (rev s))"

definition build_short_url :: "string \<Rightarrow> string \<Rightarrow> string" where
  "build_short_url BASE_SHORT_URL code = rstrip_slash BASE_SHORT_URL @ ''/'' @ code"

section \<open>The session: queries and commits\<close>

text \<open>
  \<open>db.query(ShortLink).filter(P).first()\<close>: the position of the first row that
  satisfies the filter, or \<open>None\<close>. The object the query returns is the row at that
  position; a later commit writes the object's fields back to that row.
\<close>

fun first_index :: "('a \<Rightarrow> bool) \<Rightarrow> 'a list \<Rightarrow> nat option" where
  "first_index P [] = None"
| "first_index P (x # xs) =
     (if P x then Some 0 else map_option Suc (first_index P xs))"

text \<open>
  \<open>db.add(link); db.commit(); db.refresh(link)\<close> for a new \<open>ShortLink(short_code,
  target_url, note)\<close>: the column defaults are filled in (\<open>created_at\<close> from the clock,
  \<open>click_count = 0\<close>, \<open>active = True\<close>, \<open>last_clicked_at\<close> null), the key \<open>id\<close> is one
  more than the largest in the table, and the unique index on \<open>short_code\<close> refuses a
  second row with the same code. The database is SQLite (\<open>DATABASE_URL\<close>), which does
  not enforce the declared lengths \<open>String(32)\<close>, \<open>String(2048)\<close> and \<open>String(255)\<close>.
\<close>

definition next_id :: "store \<Rightarrow> nat" where
  "next_id db = Suc (foldr max (map link_id db) 0)"

definition add_commit ::
  "datetime \<Rightarrow> string \<Rightarrow> string \<Rightarrow> string option \<Rightarrow> store \<Rightarrow> error + (ShortLink \<times> store)" where
  "add_commit now code target nt db =
     (if first_index (\<lambda>l. short_code l = code) db \<noteq> None then Inl IntegrityError
      else
        let link = \<lparr>link_id = next_id db, short_code = code, target_url = target,
                    created_at = now, click_count = 0, last_clicked_at = None,
                    active = True, link_note = nt\<rparr>
        in Inr (link, db @ [link]))"

definition short_link_response :: "string \<Rightarrow> ShortLink \<Rightarrow> ShortLinkResponse" where
  "short_link_response BASE_SHORT_URL link =
     \<lparr>resp_short_code = short_code link,
      resp_short_url = build_short_url BASE_SHORT_URL (short_code link),
      resp_target_url = target_url link,
      resp_created_at = created_at link,
      resp_click_count = click_count link,
      resp_last_clicked_at = last_clicked_at link,
      resp_active = active link,
      resp_note = link_note link\<rparr>"

definition stats_response :: "ShortLink \<Rightarrow> StatsResponse" where
  "stats_response link =
     \<lparr>stats_short_code = short_code link,
      stats_target_url = target_url link,
      stats_created_at = created_at link,
      stats_click_count = click_count link,
      stats_last_clicked_at = last_clicked_at link,
      stats_active = active link,
      stats_note = link_note link\<rparr>"

section \<open>Endpoints\<close>

text \<open>
  The loop \<open>for _ in range(10): ... else: raise\<close> of \<open>create_link\<close>: \<open>n\<close> attempts are
  left; \<open>None\<close> is the \<open>else\<close> branch of the loop (no attempt found a free code).
\<close>

fun generate_unique :: "nat \<Rightarrow> rng \<Rightarrow> store \<Rightarrow> string option" where
  "generate_unique 0 rnd db = None"
| "generate_unique (Suc n) rnd db =
     (let (code, rnd1) = generate_short_code rnd 7
      in if first_index (\<lambda>l. short_code l = code) db = None then Some code
         else generate_unique n rnd1 db)"

text \<open>
  \<open>create_link\<close>. \<open>if payload.custom_code:\<close> is true for a string that is present and
  not empty. Every endpoint returns its result together with the table it leaves.
\<close>

definition create_link ::
  "string \<Rightarrow> datetime \<Rightarrow> rng \<Rightarrow> CreateLinkRequest \<Rightarrow> store
     \<Rightarrow> (error + ShortLinkResponse) \<times> store" where
  "create_link BASE_SHORT_URL now rnd payload db =
     (let chosen =
        (case custom_code payload of
           Some c \<Rightarrow>
             if c \<noteq> [] then
               (if first_index (\<lambda>l. short_code l = c) db \<noteq> None
                then Inl CustomCodeTaken else Inr c)
             else
               (case generate_unique 10 rnd db of
                  None \<Rightarrow> Inl GenerationExhausted | Some g \<Rightarrow> Inr g)
         | None \<Rightarrow>
             (case generate_unique 10 rnd db of
                None \<Rightarrow> Inl GenerationExhausted | Some g \<Rightarrow> Inr g))
      in case chosen of
           Inl e \<Rightarrow> (Inl e, db)
         | Inr code \<Rightarrow>
             (case add_commit now code (url payload) (req_note payload) db of
                Inl e \<Rightarrow> (Inl e, db)
              | Inr (link, db1) \<Rightarrow> (Inr (short_link_response BASE_SHORT_URL link), db1)))"

definition redirect_link :: "datetime \<Rightarrow> string \<Rightarrow> store \<Rightarrow> (error + string) \<times> store" where
  "redirect_link now code db =
     (case first_index (\<lambda>l. short_code l = code \<and> active l) db of
        None \<Rightarrow> (Inl NotFound, db)
      | Some i \<Rightarrow>
          let link = db ! i;
              link1 = link\<lparr>click_count := click_count link + 1\<rparr>;
              link2 = link1\<lparr>last_clicked_at := Some now\<rparr>
          in (Inr (target_url link2), db[i := link2]))"

definition get_stats :: "string \<Rightarrow> store \<Rightarrow> error + StatsResponse" where
  "get_stats code db =
     (case first_index (\<lambda>l. short_code l = code) db of
        None \<Rightarrow> Inl NotFound
      | Some i \<Rightarrow> Inr (stats_response (db ! i)))"

text \<open>
  \<open>order_by(created_at.desc())\<close>, \<open>offset\<close> and \<open>limit\<close>. The sort is the stable one on
  the negated key (SQL leaves the order of rows with equal keys open). In SQLite a
  negative offset counts as zero and a negative limit as no limit.
\<close>

definition order_by_created_at_desc :: "store \<Rightarrow> store" where
  "order_by_created_at_desc db = sort_key (\<lambda>l. - created_at l) db"

definition offset_rows :: "int \<Rightarrow> 'a list \<Rightarrow> 'a list" where
  "offset_rows skip rows = drop (nat skip) rows"

definition limit_rows :: "int \<Rightarrow> 'a list \<Rightarrow> 'a list" where
  "limit_rows lim rows = (if lim < 0 then rows else take (nat lim) rows)"

definition list_links :: "string \<Rightarrow> int \<Rightarrow> int \<Rightarrow> store \<Rightarrow> ListLinksResponse" where
  "list_links BASE_SHORT_URL skip lim db =
     (let q = order_by_created_at_desc db;
          total = length q;
          items_raw = limit_rows lim (offset_rows skip q)
      in \<lparr>total = total, items = map (short_link_response BASE_SHORT_URL) items_raw\<rparr>)"

definition deactivate_link :: "string \<Rightarrow> store \<Rightarrow> (error + StatsResponse) \<times> store" where
  "deactivate_link code db =
     (case first_index (\<lambda>l. short_code l = code) db of
        None \<Rightarrow> (Inl NotFound, db)
      | Some i \<Rightarrow>
          let link = (db ! i)\<lparr>active := False\<rparr>
          in (Inr (stats_response link), db[i := link]))"

section \<open>Sequences of requests\<close>

text \<open>
  A request to one of the endpoints, with the clock reading and the random source it
  meets, and the table a request leaves behind. \<open>get_stats\<close> and \<open>list_links\<close> only
  read. \<open>run\<close> serves a sequence of requests one after the other.
\<close>

datatype request =
    Create datetime rng CreateLinkRequest
  | Redirect datetime string
  | Stats string
  | ListLinks int int
  | Deactivate string

fun handle :: "string \<Rightarrow> request \<Rightarrow> store \<Rightarrow> store" where
  "handle BASE_SHORT_URL (Create now rnd payload) db =
     snd (create_link BASE_SHORT_URL now rnd payload db)"
| "handle BASE_SHORT_URL (Redirect now code) db = snd (redirect_link now code db)"
| "handle BASE_SHORT_URL (Stats code) db = db"
| "handle BASE_SHORT_URL (ListLinks skip lim) db = db"
| "handle BASE_SHORT_URL (Deactivate code) db = snd (deactivate_link code db)"

definition run :: "string \<Rightarrow> request list \<Rightarrow> store \<Rightarrow> store" where
  "run BASE_SHORT_URL reqs db = fold (handle BASE_SHORT_URL) reqs db"

section \<open>Notions used to state the properties\<close>

text \<open>
  The codes that the attempts of the generation loop produce, in order: each attempt
  calls \<open>generate_short_code()\<close> on the random source the previous one left.
\<close>

fun candidates :: "nat \<Rightarrow> rng \<Rightarrow> string list" where
  "candidates 0 rnd = []"
| "candidates (Suc n) rnd =
     (let (code, rnd1) = generate_short_code rnd 7 in code # candidates n rnd1)"

definition code_exists :: "store \<Rightarrow> string \<Rightarrow> bool" where
  "code_exists db code = list_ex (\<lambda>l. short_code l = code) db"

text \<open>The row that a successful create appends.\<close>

definition new_link :: "datetime \<Rightarrow> string \<Rightarrow> CreateLinkRequest \<Rightarrow> store \<Rightarrow> ShortLink" where
  "new_link now code payload db =
     \<lparr>link_id = next_id db, short_code = code, target_url = url payload,
      created_at = now, click_count = 0, last_clicked_at = None,
      active = True, link_note = req_note payload\<rparr>"

text \<open>The row that a successful redirect writes back.\<close>

definition clicked :: "datetime \<Rightarrow> ShortLink \<Rightarrow> ShortLink" where
  "clicked now link = link\<lparr>click_count := click_count link + 1, last_clicked_at := Some now\<rparr>"

text \<open>
  The data model's invariant on one link: \<open>last_clicked_at\<close> is non-null iff
  \<open>click_count > 0\<close>; and the same together with \<open>click_count\<close> not being negative.
\<close>

definition clicked_iff :: "ShortLink \<Rightarrow> bool" where
  "clicked_iff l \<longleftrightarrow> (last_clicked_at l \<noteq> None) = (0 < click_count l)"

definition link_ok :: "ShortLink \<Rightarrow> bool" where
  "link_ok l \<longleftrightarrow> 0 \<le> click_count l \<and> clicked_iff l"

text \<open>
  The specification's well-formed custom code, in its words: 1 to 32 characters of a
  safe alphabet (letters, digits, hyphen and underscore are taken as safe here). The
  source has no such check; the predicate only says which codes the specification
  calls malformed.
\<close>

definition spec_custom_code_ok :: "string \<Rightarrow> bool" where
  "spec_custom_code_ok c \<longleftrightarrow>
     1 \<le> length c \<and> length c \<le> 32 \<and>
     list_all (\<lambda>ch. ch \<in> set (ascii_letters @ digits @ ''-_'')) c"

section \<open>Example data\<close>

definition link_old :: ShortLink where
  "link_old =
     \<lparr>link_id = 1, short_code = ''old'', target_url = ''https://a.example/x'',
      created_at = 10, click_count = 2, last_clicked_at = Some 15, active = False,
      link_note = None\<rparr>"

definition link_promo :: ShortLink where
  "link_promo =
     \<lparr>link_id = 2, short_code = ''promo1'', target_url = ''https://example.com/page'',
      created_at = 20, click_count = 0, last_clicked_at = None, active = True,
      link_note = Some ''spring''\<rparr>"

definition promo_request :: CreateLinkRequest where
  "promo_request =
     \<lparr>url = ''https://a.example/x'', custom_code = Some ''promo1'', req_note = None\<rparr>"

definition odd_request :: CreateLinkRequest where
  "odd_request =
     \<lparr>url = ''https://a.example/x'',
      custom_code = Some ''no such/code with spaces & symbols!'', req_note = None\<rparr>"

definition odd_link :: ShortLink where
  "odd_link =
     \<lparr>link_id = 1, short_code = ''no such/code with spaces & symbols!'',
      target_url = ''https://a.example/x'', created_at = 40, click_count = 0,
      last_clicked_at = None, active = True, link_note = None\<rparr>"

definition gen_request :: CreateLinkRequest where
  "gen_request = \<lparr>url = ''https://example.com/page'', custom_code = None, req_note = None\<rparr>"

definition empty_request :: CreateLinkRequest where
  "empty_request =
     \<lparr>url = ''https://example.com/page'', custom_code = Some [], req_note = None\<rparr>"

definition link_a :: ShortLink where
  "link_a =
     \<lparr>link_id = 1, short_code = ''aaaaaaa'', target_url = ''https://a.example/x'',
      created_at = 10, click_count = 0, last_clicked_at = None, active = True,
      link_note = None\<rparr>"

definition link_b :: ShortLink where
  "link_b =
     \<lparr>link_id = 2, short_code = ''bbbbbbb'', target_url = ''https://example.com/page'',
      created_at = 40, click_count = 0, last_clicked_at = None, active = True,
      link_note = None\<rparr>"

definition promo_session :: "request list" where
  "promo_session =
     [Create 40 (\<lambda>k. 0) promo_request, Stats ''promo1'', Redirect 50 ''promo1'',
      Redirect 55 ''promo1'', ListLinks 0 50, Deactivate ''promo1'', Redirect 60 ''promo1'']"

definition promo_final :: ShortLink where
  "promo_final =
     \<lparr>link_id = 1, short_code = ''promo1'', target_url = ''https://a.example/x'',
      created_at = 40, click_count = 2, last_clicked_at = Some 55, active = False,
      link_note = None\<rparr>"

definition link_negative :: ShortLink where
  "link_negative =
     \<lparr>link_id = 1, short_code = ''neg'', target_url = ''https://a.example/x'',
      created_at = 10, click_count = - 1, last_clicked_at = None, active = True,
      link_note = None\<rparr>"

section \<open>Facts about the first matching row\<close>

lemma first_index_None: "first_index P xs = None \<longleftrightarrow> (\<forall>x \<in> set xs. \<not> P x)"
  by (induction xs) auto

lemma first_index_Some:
  "first_index P xs = Some i \<Longrightarrow> i < length xs \<and> P (xs ! i) \<and> (\<forall>j < i. \<not> P (xs ! j))"
proof (induction xs arbitrary: i)
  case Nil
  then show ?case by simp
next
  case (Cons x xs)
  show ?case
  proof (cases "P x")
    case True
    with Cons.prems show ?thesis by simp
  next
    case False
    with Cons.prems obtain k where k: "first_index P xs = Some k" "i = Suc k"
      by auto
    from Cons.IH [OF k(1)] False k(2) show ?thesis
      by (auto simp: less_Suc_eq_0_disj)
  qed
qed

lemma first_index_exists:
  "\<exists>x \<in> set xs. P x \<Longrightarrow> \<exists>i. first_index P xs = Some i"
  using first_index_None [of P xs] by (cases "first_index P xs") auto


lemma code_exists_iff: "code_exists db code \<longleftrightarrow> (\<exists>l \<in> set db. short_code l = code)"
  by (simp add: code_exists_def list_ex_iff)

lemma first_index_code:
  "first_index (\<lambda>l. short_code l = code) db = None \<longleftrightarrow> \<not> code_exists db code"
  by (simp add: first_index_None code_exists_iff)

section \<open>Redirect\<close>

lemma redirect_link_hit:
  assumes "first_index (\<lambda>l. short_code l = code \<and> active l) db = Some i"
  shows "redirect_link now code db = (Inr (target_url (db ! i)), db[i := clicked now (db ! i)])"
  using assms by (simp add: redirect_link_def clicked_def Let_def)

lemma redirect_link_miss:
  assumes "first_index (\<lambda>l. short_code l = code \<and> active l) db = None"
  shows "redirect_link now code db = (Inl NotFound, db)"
  using assms by (simp add: redirect_link_def)

text \<open>
  C1. If an active link with the code exists, redirect returns its \<open>target_url\<close> and
  the table differs from the old one in that row only, which has \<open>click_count\<close> one
  higher and \<open>last_clicked_at\<close> set to the current time (every other field as before).
  If no link has the code, or those that have it are inactive, redirect fails with the
  same \<open>NotFound\<close> and the table is the old one.
\<close>

theorem redirect_link_records_click:
  "((\<exists>l \<in> set db. short_code l = code \<and> active l) \<longrightarrow>
      (\<exists>i < length db. short_code (db ! i) = code \<and> active (db ! i) \<and>
         redirect_link now code db =
           (Inr (target_url (db ! i)),
            db[i := (db ! i)\<lparr>click_count := click_count (db ! i) + 1,
                              last_clicked_at := Some now\<rparr>]))) \<and>
   ((\<forall>l \<in> set db. short_code l = code \<longrightarrow> \<not> active l) \<longrightarrow>
      redirect_link now code db = (Inl NotFound, db))"
proof (intro conjI impI)
  assume "\<exists>l \<in> set db. short_code l = code \<and> active l"
  then obtain i where i: "first_index (\<lambda>l. short_code l = code \<and> active l) db = Some i"
    using first_index_exists [of db "\<lambda>l. short_code l = code \<and> active l"] by blast
  from first_index_Some [OF i] redirect_link_hit [OF i, of now]
  show "\<exists>i < length db. short_code (db ! i) = code \<and> active (db ! i) \<and>
         redirect_link now code db =
           (Inr (target_url (db ! i)),
            db[i := (db ! i)\<lparr>click_count := click_count (db ! i) + 1,
                              last_clicked_at := Some now\<rparr>])"
    by (auto simp: clicked_def)
next
  assume "\<forall>l \<in> set db. short_code l = code \<longrightarrow> \<not> active l"
  then have "first_index (\<lambda>l. short_code l = code \<and> active l) db = None"
    by (simp add: first_index_None)
  then show "redirect_link now code db = (Inl NotFound, db)"
    by (rule redirect_link_miss)
qed

theorem redirect_link_records_click_witness:
  "(\<exists>l \<in> set [link_old, link_promo]. short_code l = ''promo1'' \<and> active l) \<and>
   redirect_link 30 ''promo1'' [link_old, link_promo] =
     (Inr ''https://example.com/page'',
      [link_old, link_promo\<lparr>click_count := 1, last_clicked_at := Some 30\<rparr>]) \<and>
   short_code link_old = ''old'' \<and> \<not> active link_old \<and> short_code link_promo \<noteq> ''old'' \<and>
   redirect_link 30 ''old'' [link_old, link_promo] = (Inl NotFound, [link_old, link_promo])"
  using redirect_link_records_click [of "[link_old, link_promo]" "''promo1''" 30]
    redirect_link_records_click [of "[link_old, link_promo]" "''old''" 30]
  by (auto simp: link_old_def link_promo_def less_Suc_eq_0_disj numeral_2_eq_2)

section \<open>Updating a row in place\<close>

lemma map_update_same: "f y = f (xs ! i) \<Longrightarrow> map f (xs[i := y]) = map f xs"
  by (induction xs arbitrary: i) (auto split: nat.splits)

lemma first_index_cong_map: "map P xs = map P ys \<Longrightarrow> first_index P xs = first_index P ys"
proof (induction xs arbitrary: ys)
  case Nil
  then show ?case by simp
next
  case (Cons x xs)
  then obtain y ys' where ys: "ys = y # ys'" by (cases ys) auto
  with Cons.prems have "P x = P y" "map P xs = map P ys'" by auto
  with Cons.IH [of ys'] ys show ?case by simp
qed

lemma first_index_update_same:
  "P y = P (xs ! i) \<Longrightarrow> first_index P (xs[i := y]) = first_index P xs"
  by (rule first_index_cong_map) (simp add: map_update_same)

section \<open>Stats\<close>

lemma get_stats_hit:
  "first_index (\<lambda>l. short_code l = code) db = Some i \<Longrightarrow>
   get_stats code db = Inr (stats_response (db ! i))"
  by (simp add: get_stats_def)

lemma get_stats_miss:
  "first_index (\<lambda>l. short_code l = code) db = None \<Longrightarrow> get_stats code db = Inl NotFound"
  by (simp add: get_stats_def)

lemma deactivate_link_hit:
  "first_index (\<lambda>l. short_code l = code) db = Some i \<Longrightarrow>
   deactivate_link code db =
     (Inr (stats_response ((db ! i)\<lparr>active := False\<rparr>)), db[i := (db ! i)\<lparr>active := False\<rparr>])"
  by (simp add: deactivate_link_def Let_def)

lemma deactivate_link_miss:
  "first_index (\<lambda>l. short_code l = code) db = None \<Longrightarrow>
   deactivate_link code db = (Inl NotFound, db)"
  by (simp add: deactivate_link_def)

lemma first_index_after_deactivate:
  "first_index (\<lambda>l. short_code l = code) (db[i := (db ! i)\<lparr>active := False\<rparr>]) =
   first_index (\<lambda>l. short_code l = code) db"
  by (rule first_index_update_same) simp

text \<open>
  C7. Whenever some link has the code, whatever its \<open>active\<close> flag, \<open>get_stats\<close>
  returns the full record of that link: its \<open>short_code\<close>, \<open>target_url\<close>, \<open>created_at\<close>,
  \<open>click_count\<close>, \<open>last_clicked_at\<close>, \<open>active\<close> and \<open>note\<close>, each as stored. After a
  deactivation it still returns the record, with \<open>active = False\<close> and every other field
  as before. It fails with \<open>NotFound\<close> exactly when no link has the code.
\<close>

theorem get_stats_any_state:
  "((\<exists>l \<in> set db. short_code l = code) \<longrightarrow>
      (\<exists>i < length db. short_code (db ! i) = code \<and>
         get_stats code db =
           Inr \<lparr>stats_short_code = short_code (db ! i),
                stats_target_url = target_url (db ! i),
                stats_created_at = created_at (db ! i),
                stats_click_count = click_count (db ! i),
                stats_last_clicked_at = last_clicked_at (db ! i),
                stats_active = active (db ! i),
                stats_note = link_note (db ! i)\<rparr> \<and>
         get_stats code (snd (deactivate_link code db)) =
           Inr \<lparr>stats_short_code = short_code (db ! i),
                stats_target_url = target_url (db ! i),
                stats_created_at = created_at (db ! i),
                stats_click_count = click_count (db ! i),
                stats_last_clicked_at = last_clicked_at (db ! i),
                stats_active = False,
                stats_note = link_note (db ! i)\<rparr>)) \<and>
   (get_stats code db = Inl NotFound \<longleftrightarrow> \<not> (\<exists>l \<in> set db. short_code l = code))"
proof (cases "first_index (\<lambda>l. short_code l = code) db")
  case None
  then have "\<not> (\<exists>l \<in> set db. short_code l = code)"
    by (simp add: first_index_None)
  with get_stats_miss [OF None] show ?thesis by simp
next
  case (Some i)
  from first_index_Some [OF Some]
  have i: "i < length db" "short_code (db ! i) = code" by simp_all
  then have ex: "\<exists>l \<in> set db. short_code l = code"
    using nth_mem by blast
  let ?db1 = "db[i := (db ! i)\<lparr>active := False\<rparr>]"
  have before: "get_stats code db =
      Inr \<lparr>stats_short_code = short_code (db ! i),
           stats_target_url = target_url (db ! i),
           stats_created_at = created_at (db ! i),
           stats_click_count = click_count (db ! i),
           stats_last_clicked_at = last_clicked_at (db ! i),
           stats_active = active (db ! i),
           stats_note = link_note (db ! i)\<rparr>"
    by (simp add: get_stats_hit [OF Some] stats_response_def)
  have "first_index (\<lambda>l. short_code l = code) ?db1 = Some i"
    using Some by (simp add: first_index_after_deactivate)
  then have "get_stats code ?db1 = Inr (stats_response (?db1 ! i))"
    by (rule get_stats_hit)
  with i(1) have after: "get_stats code (snd (deactivate_link code db)) =
      Inr \<lparr>stats_short_code = short_code (db ! i),
           stats_target_url = target_url (db ! i),
           stats_created_at = created_at (db ! i),
           stats_click_count = click_count (db ! i),
           stats_last_clicked_at = last_clicked_at (db ! i),
           stats_active = False,
           stats_note = link_note (db ! i)\<rparr>"
    by (simp add: deactivate_link_hit [OF Some] stats_response_def)
  have nf: "get_stats code db \<noteq> Inl NotFound"
    by (simp add: before)
  from before after i ex nf show ?thesis
    by blast
qed

theorem get_stats_any_state_witness:
  "get_stats ''old'' [link_old, link_promo] =
     Inr \<lparr>stats_short_code = ''old'', stats_target_url = ''https://a.example/x'',
          stats_created_at = 10, stats_click_count = 2, stats_last_clicked_at = Some 15,
          stats_active = False, stats_note = None\<rparr> \<and>
   get_stats ''promo1'' [link_old, link_promo] =
     Inr \<lparr>stats_short_code = ''promo1'', stats_target_url = ''https://example.com/page'',
          stats_created_at = 20, stats_click_count = 0, stats_last_clicked_at = None,
          stats_active = True, stats_note = Some ''spring''\<rparr> \<and>
   get_stats ''promo1'' (snd (deactivate_link ''promo1'' [link_old, link_promo])) =
     Inr \<lparr>stats_short_code = ''promo1'', stats_target_url = ''https://example.com/page'',
          stats_created_at = 20, stats_click_count = 0, stats_last_clicked_at = None,
          stats_active = False, stats_note = Some ''spring''\<rparr> \<and>
   get_stats ''nope'' [link_old, link_promo] = Inl NotFound"
  using get_stats_any_state [of "[link_old, link_promo]" "''old''"]
    get_stats_any_state [of "[link_old, link_promo]" "''promo1''"]
    get_stats_any_state [of "[link_old, link_promo]" "''nope''"]
  by (auto simp: link_old_def link_promo_def less_Suc_eq_0_disj numeral_2_eq_2)

section \<open>Deactivate\<close>

text \<open>
  C8. Deactivating a code that some link has succeeds and sets \<open>active = False\<close> in
  that row only; deactivating it again succeeds too, with the same response, and leaves
  the table as the first deactivation left it.
\<close>

theorem deactivate_link_idempotent:
  "(\<exists>l \<in> set db. short_code l = code) \<longrightarrow>
     (\<exists>i < length db. short_code (db ! i) = code \<and>
        deactivate_link code db =
          (Inr ((stats_response (db ! i))\<lparr>stats_active := False\<rparr>),
           db[i := (db ! i)\<lparr>active := False\<rparr>]) \<and>
        deactivate_link code (snd (deactivate_link code db)) = deactivate_link code db)"
proof
  assume "\<exists>l \<in> set db. short_code l = code"
  then obtain i where Some: "first_index (\<lambda>l. short_code l = code) db = Some i"
    using first_index_exists [of db "\<lambda>l. short_code l = code"] by blast
  from first_index_Some [OF Some]
  have i: "i < length db" "short_code (db ! i) = code" by simp_all
  let ?db1 = "db[i := (db ! i)\<lparr>active := False\<rparr>]"
  have first: "deactivate_link code db =
      (Inr ((stats_response (db ! i))\<lparr>stats_active := False\<rparr>), ?db1)"
    by (simp add: deactivate_link_hit [OF Some] stats_response_def)
  have "first_index (\<lambda>l. short_code l = code) ?db1 = Some i"
    using Some by (simp add: first_index_after_deactivate)
  from deactivate_link_hit [OF this] i(1)
  have "deactivate_link code ?db1 =
      (Inr ((stats_response (db ! i))\<lparr>stats_active := False\<rparr>), ?db1)"
    by (simp add: stats_response_def)
  with first i show "\<exists>i < length db. short_code (db ! i) = code \<and>
        deactivate_link code db =
          (Inr ((stats_response (db ! i))\<lparr>stats_active := False\<rparr>),
           db[i := (db ! i)\<lparr>active := False\<rparr>]) \<and>
        deactivate_link code (snd (deactivate_link code db)) = deactivate_link code db"
    by auto
qed

theorem deactivate_link_idempotent_witness:
  "deactivate_link ''promo1'' [link_old, link_promo] =
     (Inr ((stats_response link_promo)\<lparr>stats_active := False\<rparr>),
      [link_old, link_promo\<lparr>active := False\<rparr>]) \<and>
   deactivate_link ''promo1'' [link_old, link_promo\<lparr>active := False\<rparr>] =
     (Inr ((stats_response link_promo)\<lparr>stats_active := False\<rparr>),
      [link_old, link_promo\<lparr>active := False\<rparr>])"
  using deactivate_link_idempotent [of "[link_old, link_promo]" "''promo1''"]
  by (auto simp: link_old_def link_promo_def less_Suc_eq_0_disj numeral_2_eq_2)

section \<open>List\<close>

lemma order_by_created_at_desc_sorted:
  "sorted_wrt (\<lambda>a b. created_at b \<le> created_at a) (order_by_created_at_desc db)"
proof -
  have "sorted (map (\<lambda>l. - created_at l) (sort_key (\<lambda>l. - created_at l) db))"
    by (rule sorted_sort_key)
  then show ?thesis
    by (simp add: order_by_created_at_desc_def sorted_wrt_map)
qed

lemma page_sorted:
  "sorted_wrt R rows \<Longrightarrow> sorted_wrt R (limit_rows lim (offset_rows skip rows))"
  by (simp add: limit_rows_def offset_rows_def)

lemma items_list_links:
  "items (list_links B skip lim db) =
     map (short_link_response B) (limit_rows lim (offset_rows skip (order_by_created_at_desc db)))"
  by (simp add: list_links_def Let_def)

text \<open>
  C9. For every table, offset and limit: \<open>total\<close> is the number of all rows, whatever the
  offset and limit; the query's rows are the table's rows rearranged so that \<open>created_at\<close>
  never increases; the items are the page of that sequence that starts after \<open>skip\<close> rows
  and has at most \<open>limit\<close> rows (all the remaining rows when the limit is negative), so
  they are ordered by \<open>created_at\<close> descending too.
\<close>

theorem list_links_ordered_page:
  "total (list_links B skip lim db) = length db \<and>
   mset (order_by_created_at_desc db) = mset db \<and>
   sorted_wrt (\<lambda>a b. created_at b \<le> created_at a) (order_by_created_at_desc db) \<and>
   items (list_links B skip lim db) =
     map (short_link_response B)
       (if lim < 0 then drop (nat skip) (order_by_created_at_desc db)
        else take (nat lim) (drop (nat skip) (order_by_created_at_desc db))) \<and>
   sorted_wrt (\<lambda>a b. resp_created_at b \<le> resp_created_at a) (items (list_links B skip lim db))"
proof -
  have t: "total (list_links B skip lim db) = length db"
    by (simp add: list_links_def Let_def order_by_created_at_desc_def)
  have m: "mset (order_by_created_at_desc db) = mset db"
    by (simp add: order_by_created_at_desc_def)
  have p: "items (list_links B skip lim db) =
     map (short_link_response B)
       (if lim < 0 then drop (nat skip) (order_by_created_at_desc db)
        else take (nat lim) (drop (nat skip) (order_by_created_at_desc db)))"
    by (simp add: items_list_links limit_rows_def offset_rows_def)
  have "sorted_wrt (\<lambda>a b. created_at b \<le> created_at a)
      (limit_rows lim (offset_rows skip (order_by_created_at_desc db)))"
    by (rule page_sorted) (rule order_by_created_at_desc_sorted)
  then have s: "sorted_wrt (\<lambda>a b. resp_created_at b \<le> resp_created_at a)
      (items (list_links B skip lim db))"
    by (simp add: items_list_links sorted_wrt_map short_link_response_def)
  from t m order_by_created_at_desc_sorted p s show ?thesis by blast
qed

theorem list_links_ordered_page_witness:
  "total (list_links ''http://localhost:9500/'' 0 1 [link_old, link_promo]) = 2 \<and>
   items (list_links ''http://localhost:9500/'' 0 1 [link_old, link_promo]) =
     [short_link_response ''http://localhost:9500/'' link_promo] \<and>
   items (list_links ''http://localhost:9500/'' 1 50 [link_old, link_promo]) =
     [short_link_response ''http://localhost:9500/'' link_old] \<and>
   resp_short_url (short_link_response ''http://localhost:9500/'' link_promo) =
     ''http://localhost:9500/promo1''"
  using list_links_ordered_page [of "''http://localhost:9500/''" 0 1 "[link_old, link_promo]"]
    list_links_ordered_page [of "''http://localhost:9500/''" 1 50 "[link_old, link_promo]"]
  by (simp add: order_by_created_at_desc_def link_old_def link_promo_def
      short_link_response_def build_short_url_def rstrip_slash_def)

section \<open>Create with a custom code\<close>

lemma create_link_custom:
  assumes "custom_code payload = Some c" and "c \<noteq> []"
  shows "create_link B now rnd payload db =
     (if code_exists db c then (Inl CustomCodeTaken, db)
      else (Inr (short_link_response B (new_link now c payload db)),
            db @ [new_link now c payload db]))"
  using assms
  by (simp add: create_link_def add_commit_def first_index_code new_link_def Let_def)

lemma code_exists_map: "code_exists db c \<longleftrightarrow> c \<in> set (map short_code db)"
  by (auto simp: code_exists_iff)

lemma redirect_link_codes: "map short_code (snd (redirect_link now code db)) = map short_code db"
  by (simp add: redirect_link_def Let_def map_update_same split: option.splits)

lemma deactivate_link_codes: "map short_code (snd (deactivate_link code db)) = map short_code db"
  by (simp add: deactivate_link_def Let_def map_update_same split: option.splits)

lemma create_link_store:
  "snd (create_link B now rnd payload db) = db \<or>
   (\<exists>c. snd (create_link B now rnd payload db) = db @ [new_link now c payload db])"
  by (auto simp: create_link_def add_commit_def new_link_def Let_def
      split: option.splits sum.splits if_splits)

lemma handle_keeps_codes: "code_exists db c \<Longrightarrow> code_exists (handle B r db) c"
proof (cases r)
  case (Create now rnd payload)
  assume "code_exists db c"
  with create_link_store [of B now rnd payload db] Create show ?thesis
    by (auto simp: code_exists_map)
next
  case (Redirect now code)
  assume "code_exists db c"
  with Redirect show ?thesis by (simp add: code_exists_map redirect_link_codes)
next
  case (Deactivate code)
  assume "code_exists db c"
  with Deactivate show ?thesis by (simp add: code_exists_map deactivate_link_codes)
qed simp_all

lemma run_keeps_codes: "code_exists db c \<Longrightarrow> code_exists (run B reqs db) c"
  unfolding run_def
  by (induction reqs arbitrary: db) (simp_all add: handle_keeps_codes)

text \<open>
  C5. A create request whose custom code (a non-empty string, which is what
  \<open>create_link\<close> takes as a custom code) is the code of a link in the table, active or
  not, fails with \<open>CustomCodeTaken\<close> and leaves the table as it is. Hence after a create
  with a custom code has succeeded, every later create with the same custom code fails
  with \<open>CustomCodeTaken\<close>, whatever requests were served in between.
\<close>

theorem create_link_custom_code_taken:
  assumes "custom_code payload = Some c" and "c \<noteq> []"
  shows "((\<exists>l \<in> set db. short_code l = c) \<longrightarrow>
            create_link B now rnd payload db = (Inl CustomCodeTaken, db)) \<and>
         (\<forall>r db1 reqs now2 rnd2 payload2.
            create_link B now rnd payload db = (Inr r, db1) \<and> custom_code payload2 = Some c \<longrightarrow>
            create_link B now2 rnd2 payload2 (run B reqs db1) =
              (Inl CustomCodeTaken, run B reqs db1))"
proof (intro conjI impI allI)
  assume "\<exists>l \<in> set db. short_code l = c"
  then have "code_exists db c" by (simp add: code_exists_iff)
  with create_link_custom [OF assms] show "create_link B now rnd payload db = (Inl CustomCodeTaken, db)"
    by simp
next
  fix r db1 reqs now2 rnd2 and payload2 :: CreateLinkRequest
  assume a: "create_link B now rnd payload db = (Inr r, db1) \<and> custom_code payload2 = Some c"
  with create_link_custom [OF assms, of B now rnd db]
  have "db1 = db @ [new_link now c payload db]"
    by (auto split: if_splits)
  then have "code_exists db1 c"
    by (simp add: code_exists_map new_link_def)
  then have "code_exists (run B reqs db1) c"
    by (rule run_keeps_codes)
  with create_link_custom [of payload2 c B now2 rnd2 "run B reqs db1"] a assms(2)
  show "create_link B now2 rnd2 payload2 (run B reqs db1) = (Inl CustomCodeTaken, run B reqs db1)"
    by simp
qed

theorem create_link_custom_code_taken_witness:
  "custom_code promo_request = Some ''promo1'' \<and>
   create_link ''http://localhost:9500'' 40 (\<lambda>k. 0) promo_request [link_old, link_promo] =
     (Inl CustomCodeTaken, [link_old, link_promo]) \<and>
   fst (create_link ''http://localhost:9500'' 40 (\<lambda>k. 0) promo_request []) =
     Inr (short_link_response ''http://localhost:9500''
            (link_promo\<lparr>link_id := 1, target_url := ''https://a.example/x'',
               created_at := 40, link_note := None\<rparr>)) \<and>
   create_link ''http://localhost:9500'' 60 (\<lambda>k. 0) promo_request
       (run ''http://localhost:9500'' [Deactivate ''promo1'']
          (snd (create_link ''http://localhost:9500'' 40 (\<lambda>k. 0) promo_request []))) =
     (Inl CustomCodeTaken,
      run ''http://localhost:9500'' [Deactivate ''promo1'']
        (snd (create_link ''http://localhost:9500'' 40 (\<lambda>k. 0) promo_request [])))"
proof -
  have p: "custom_code promo_request = Some ''promo1''" "''promo1'' \<noteq> []"
    by (simp_all add: promo_request_def)
  note t = create_link_custom_code_taken [OF p]
  have 1: "create_link ''http://localhost:9500'' 40 (\<lambda>k. 0) promo_request [link_old, link_promo] =
     (Inl CustomCodeTaken, [link_old, link_promo])"
    using t [of "[link_old, link_promo]" "''http://localhost:9500''" 40 "\<lambda>k. 0"]
    by (simp add: link_promo_def)
  have c: "create_link ''http://localhost:9500'' 40 (\<lambda>k. 0) promo_request [] =
     (Inr (short_link_response ''http://localhost:9500''
            (link_promo\<lparr>link_id := 1, target_url := ''https://a.example/x'',
               created_at := 40, link_note := None\<rparr>)),
      [link_promo\<lparr>link_id := 1, target_url := ''https://a.example/x'',
               created_at := 40, link_note := None\<rparr>])"
    by (simp add: create_link_def add_commit_def promo_request_def link_promo_def next_id_def
        Let_def)
  from t [of "[]" "''http://localhost:9500''" 40 "\<lambda>k. 0", THEN conjunct2, rule_format,
      where reqs = "[Deactivate ''promo1'']" and ?now2.0 = 60 and ?rnd2.0 = "\<lambda>k. 0"
        and ?payload2.0 = promo_request] c p(1)
  have 2: "create_link ''http://localhost:9500'' 60 (\<lambda>k. 0) promo_request
       (run ''http://localhost:9500'' [Deactivate ''promo1'']
          (snd (create_link ''http://localhost:9500'' 40 (\<lambda>k. 0) promo_request []))) =
     (Inl CustomCodeTaken,
      run ''http://localhost:9500'' [Deactivate ''promo1'']
        (snd (create_link ''http://localhost:9500'' 40 (\<lambda>k. 0) promo_request [])))"
    by simp
  from p(1) 1 c 2 show ?thesis by simp
qed

section \<open>Custom codes are not validated\<close>

text \<open>
  C3, as amended. \<open>create_link\<close> makes no check of the characters or the length of a
  custom code. A non-empty custom code is looked up in the table as it is given: if some
  link has it the request fails with \<open>CustomCodeTaken\<close> and the table is unchanged,
  and otherwise a link with exactly that code is appended and returned, whatever the
  code's characters and length.
\<close>

theorem create_link_custom_code_unchecked:
  assumes "custom_code payload = Some c" and "c \<noteq> []"
  shows "create_link B now rnd payload db =
     (if \<exists>l \<in> set db. short_code l = c then (Inl CustomCodeTaken, db)
      else (Inr (short_link_response B (new_link now c payload db)),
            db @ [new_link now c payload db])) \<and>
     short_code (new_link now c payload db) = c"
  using create_link_custom [OF assms, of B now rnd db]
  by (simp add: code_exists_iff new_link_def)

theorem create_link_custom_code_unchecked_witness:
  "custom_code odd_request = Some ''no such/code with spaces & symbols!'' \<and>
   \<not> spec_custom_code_ok ''no such/code with spaces & symbols!'' \<and>
   create_link ''http://localhost:9500'' 40 (\<lambda>k. 0) odd_request [link_old, link_promo] =
     (Inr (short_link_response ''http://localhost:9500'' (odd_link\<lparr>link_id := 3\<rparr>)),
      [link_old, link_promo, odd_link\<lparr>link_id := 3\<rparr>])"
proof -
  have p: "custom_code odd_request = Some ''no such/code with spaces & symbols!''"
    "''no such/code with spaces & symbols!'' \<noteq> []"
    by (simp_all add: odd_request_def)
  have n: "\<not> spec_custom_code_ok ''no such/code with spaces & symbols!''"
    by (simp add: spec_custom_code_ok_def)
  have l: "new_link 40 ''no such/code with spaces & symbols!'' odd_request [link_old, link_promo] =
      odd_link\<lparr>link_id := 3\<rparr>"
    by (simp add: new_link_def odd_link_def odd_request_def next_id_def link_old_def
        link_promo_def)
  from create_link_custom_code_unchecked [OF p, of "''http://localhost:9500''" 40 "\<lambda>k. 0"
      "[link_old, link_promo]"]
  have "create_link ''http://localhost:9500'' 40 (\<lambda>k. 0) odd_request [link_old, link_promo] =
     (Inr (short_link_response ''http://localhost:9500'' (odd_link\<lparr>link_id := 3\<rparr>)),
      [link_old, link_promo, odd_link\<lparr>link_id := 3\<rparr>])"
    unfolding l by (simp add: link_old_def link_promo_def)
  with p(1) n show ?thesis by simp
qed

text \<open>
  C3 as stated fails: a custom code of 35 characters with spaces, a slash and other
  symbols is not rejected; the link is created and stored under that code.
\<close>

theorem create_link_custom_code_counterexample:
  "\<not> spec_custom_code_ok ''no such/code with spaces & symbols!'' \<and>
   length ''no such/code with spaces & symbols!'' = 35 \<and>
   create_link ''http://localhost:9500'' 40 (\<lambda>k. 0) odd_request [] =
     (Inr (short_link_response ''http://localhost:9500'' odd_link), [odd_link])"
  by (simp add: spec_custom_code_ok_def create_link_def add_commit_def odd_request_def
      odd_link_def next_id_def Let_def)

section \<open>Generated codes\<close>

lemma generate_short_code_length: "length (fst (generate_short_code rnd n)) = n"
proof (induction n arbitrary: rnd)
  case 0
  then show ?case by simp
next
  case (Suc n)
  obtain c rnd1 where c: "random_choice rnd (ascii_letters @ digits) = (c, rnd1)"
    by (cases "random_choice rnd (ascii_letters @ digits)")
  obtain cs rnd2 where g: "generate_short_code rnd1 n = (cs, rnd2)"
    by (cases "generate_short_code rnd1 n")
  from Suc [of rnd1] g have "length cs = n" by simp
  with c g show ?case by simp
qed

lemma random_choice_mem: "seq \<noteq> [] \<Longrightarrow> fst (random_choice rnd seq) \<in> set seq"
  by (simp add: random_choice_def)

lemma generate_short_code_chars:
  "set (fst (generate_short_code rnd n)) \<subseteq> set (ascii_letters @ digits)"
proof (induction n arbitrary: rnd)
  case 0
  then show ?case by simp
next
  case (Suc n)
  have ne: "ascii_letters @ digits \<noteq> []" by (simp add: digits_def)
  obtain c rnd1 where c: "random_choice rnd (ascii_letters @ digits) = (c, rnd1)"
    by (cases "random_choice rnd (ascii_letters @ digits)")
  with random_choice_mem [OF ne, of rnd] have m: "c \<in> set (ascii_letters @ digits)" by simp
  obtain cs rnd2 where g: "generate_short_code rnd1 n = (cs, rnd2)"
    by (cases "generate_short_code rnd1 n")
  from Suc [of rnd1] g have "set cs \<subseteq> set (ascii_letters @ digits)" by simp
  with m c g show ?case by simp
qed

lemma candidates_length: "length (candidates n rnd) = n"
  by (induction n arbitrary: rnd) (simp_all add: Let_def split: prod.splits)

lemma candidates_shape:
  "c \<in> set (candidates n rnd) \<Longrightarrow> length c = 7 \<and> set c \<subseteq> set (ascii_letters @ digits)"
proof (induction n arbitrary: rnd)
  case 0
  then show ?case by simp
next
  case (Suc n)
  obtain code rnd1 where g: "generate_short_code rnd 7 = (code, rnd1)"
    by (cases "generate_short_code rnd 7")
  from generate_short_code_length [of rnd 7] generate_short_code_chars [of rnd 7] g
  have "length code = 7 \<and> set code \<subseteq> set (ascii_letters @ digits)" by simp
  with Suc.prems Suc.IH [of rnd1] g show ?case by auto
qed

lemma generate_unique_find:
  "generate_unique n rnd db = find (\<lambda>c. \<not> code_exists db c) (candidates n rnd)"
  by (induction n arbitrary: rnd) (simp_all add: first_index_code Let_def split: prod.splits)

lemma create_link_generated:
  assumes "custom_code payload = None \<or> custom_code payload = Some []"
  shows "create_link B now rnd payload db =
     (case find (\<lambda>c. \<not> code_exists db c) (candidates 10 rnd) of
        None \<Rightarrow> (Inl GenerationExhausted, db)
      | Some c \<Rightarrow> (Inr (short_link_response B (new_link now c payload db)),
                   db @ [new_link now c payload db]))"
proof (cases "find (\<lambda>c. \<not> code_exists db c) (candidates 10 rnd)")
  case None
  with assms show ?thesis
    by (auto simp: create_link_def generate_unique_find)
next
  case (Some c)
  then have "\<not> code_exists db c"
    by (auto simp: find_Some_iff)
  with Some assms show ?thesis
    by (auto simp: create_link_def generate_unique_find add_commit_def first_index_code
        new_link_def Let_def)
qed

text \<open>
  C4. Without a custom code, \<open>create_link\<close> looks at no more than the ten codes that
  ten successive calls of the generator produce, each tested against the table. If all
  ten are codes of links in the table, the request fails with \<open>GenerationExhausted\<close>
  and the table is unchanged. Otherwise the first of the ten that no link has becomes
  the code of the new link, and no later candidate is looked at.
\<close>

theorem create_link_generation_bounded:
  assumes "custom_code payload = None"
  shows "length (candidates 10 rnd) = 10 \<and>
     ((\<forall>c \<in> set (candidates 10 rnd). \<exists>l \<in> set db. short_code l = c) \<longrightarrow>
        create_link B now rnd payload db = (Inl GenerationExhausted, db)) \<and>
     (\<forall>k < 10. (\<forall>j < k. \<exists>l \<in> set db. short_code l = candidates 10 rnd ! j) \<and>
               \<not> (\<exists>l \<in> set db. short_code l = candidates 10 rnd ! k) \<longrightarrow>
        create_link B now rnd payload db =
          (Inr (short_link_response B (new_link now (candidates 10 rnd ! k) payload db)),
           db @ [new_link now (candidates 10 rnd ! k) payload db]))"
proof (intro conjI impI allI)
  show "length (candidates 10 rnd) = 10" by (rule candidates_length)
next
  assume "\<forall>c \<in> set (candidates 10 rnd). \<exists>l \<in> set db. short_code l = c"
  then have "find (\<lambda>c. \<not> code_exists db c) (candidates 10 rnd) = None"
    by (simp add: find_None_iff code_exists_iff)
  with create_link_generated [of payload B now rnd db] assms
  show "create_link B now rnd payload db = (Inl GenerationExhausted, db)" by simp
next
  fix k :: nat
  assume k: "k < 10"
    and "(\<forall>j < k. \<exists>l \<in> set db. short_code l = candidates 10 rnd ! j) \<and>
         \<not> (\<exists>l \<in> set db. short_code l = candidates 10 rnd ! k)"
  then have "find (\<lambda>c. \<not> code_exists db c) (candidates 10 rnd) = Some (candidates 10 rnd ! k)"
    unfolding find_Some_iff by (auto simp: code_exists_iff candidates_length)
  with create_link_generated [of payload B now rnd db] assms
  show "create_link B now rnd payload db =
          (Inr (short_link_response B (new_link now (candidates 10 rnd ! k) payload db)),
           db @ [new_link now (candidates 10 rnd ! k) payload db])" by simp
qed

text \<open>
  C10. A request whose \<open>custom_code\<close> is the empty string is served exactly as the
  same request without a custom code. So it is never refused as a custom code: either
  generation is exhausted, or the new link has one of the generated candidates as its
  code, seven characters drawn from the letters and digits, and not the empty string.
\<close>

theorem create_link_empty_custom_code:
  assumes "custom_code payload = Some []"
  shows "create_link B now rnd payload db =
           create_link B now rnd (payload\<lparr>custom_code := None\<rparr>) db \<and>
         (create_link B now rnd payload db = (Inl GenerationExhausted, db) \<or>
          (\<exists>c \<in> set (candidates 10 rnd).
             length c = 7 \<and> set c \<subseteq> set (ascii_letters @ digits) \<and>
             \<not> code_exists db c \<and>
             create_link B now rnd payload db =
               (Inr (short_link_response B (new_link now c payload db)),
                db @ [new_link now c payload db]) \<and>
             resp_short_code (short_link_response B (new_link now c payload db)) = c))"
proof
  have "new_link now c (payload\<lparr>custom_code := None\<rparr>) db = new_link now c payload db" for c
    by (simp add: new_link_def)
  with create_link_generated [of payload B now rnd db]
    create_link_generated [of "payload\<lparr>custom_code := None\<rparr>" B now rnd db] assms
  show "create_link B now rnd payload db =
           create_link B now rnd (payload\<lparr>custom_code := None\<rparr>) db"
    by (simp split: option.splits)
next
  show "create_link B now rnd payload db = (Inl GenerationExhausted, db) \<or>
          (\<exists>c \<in> set (candidates 10 rnd).
             length c = 7 \<and> set c \<subseteq> set (ascii_letters @ digits) \<and>
             \<not> code_exists db c \<and>
             create_link B now rnd payload db =
               (Inr (short_link_response B (new_link now c payload db)),
                db @ [new_link now c payload db]) \<and>
             resp_short_code (short_link_response B (new_link now c payload db)) = c)"
  proof (cases "find (\<lambda>c. \<not> code_exists db c) (candidates 10 rnd)")
    case None
    with create_link_generated [of payload B now rnd db] assms show ?thesis by simp
  next
    case (Some c)
    then have c: "c \<in> set (candidates 10 rnd)" "\<not> code_exists db c"
      by (auto simp: find_Some_iff)
    from candidates_shape [OF c(1)]
    have "length c = 7 \<and> set c \<subseteq> set (ascii_letters @ digits)" .
    moreover have "resp_short_code (short_link_response B (new_link now c payload db)) = c"
      by (simp add: short_link_response_def new_link_def)
    ultimately show ?thesis
      using create_link_generated [of payload B now rnd db] assms Some c by auto
  qed
qed

lemma candidates_zero: "candidates 10 (\<lambda>k. 0) = replicate 10 ''aaaaaaa''"
  by code_simp

lemma candidates_div7:
  "candidates 10 (\<lambda>k. k div 7) =
     [''aaaaaaa'', ''bbbbbbb'', ''ccccccc'', ''ddddddd'', ''eeeeeee'',
      ''fffffff'', ''ggggggg'', ''hhhhhhh'', ''iiiiiii'', ''jjjjjjj'']"
  by code_simp

lemma new_link_b: "new_link 40 ''bbbbbbb'' gen_request [link_a] = link_b"
  by (simp add: new_link_def gen_request_def link_a_def link_b_def next_id_def)

theorem create_link_generation_bounded_witness:
  "custom_code gen_request = None \<and>
   candidates 10 (\<lambda>k. 0) = replicate 10 ''aaaaaaa'' \<and>
   create_link ''http://localhost:9500'' 40 (\<lambda>k. 0) gen_request [link_a] =
     (Inl GenerationExhausted, [link_a]) \<and>
   candidates 10 (\<lambda>k. k div 7) ! 0 = ''aaaaaaa'' \<and>
   candidates 10 (\<lambda>k. k div 7) ! 1 = ''bbbbbbb'' \<and>
   create_link ''http://localhost:9500'' 40 (\<lambda>k. k div 7) gen_request [link_a] =
     (Inr (short_link_response ''http://localhost:9500'' link_b), [link_a, link_b])"
proof -
  have h: "custom_code gen_request = None" by (simp add: gen_request_def)
  note t = create_link_generation_bounded [OF h]
  from t [of "\<lambda>k. 0" "[link_a]" "''http://localhost:9500''" 40]
  have 1: "create_link ''http://localhost:9500'' 40 (\<lambda>k. 0) gen_request [link_a] =
     (Inl GenerationExhausted, [link_a])"
    by (simp add: candidates_zero link_a_def)
  from t [of "\<lambda>k. k div 7" "[link_a]" "''http://localhost:9500''" 40,
      THEN conjunct2, THEN conjunct2, rule_format, of 1]
  have 2: "create_link ''http://localhost:9500'' 40 (\<lambda>k. k div 7) gen_request [link_a] =
     (Inr (short_link_response ''http://localhost:9500'' link_b), [link_a, link_b])"
    unfolding candidates_div7 by (simp add: new_link_b) (simp add: link_a_def)
  from h 1 2 show ?thesis
    by (simp add: candidates_zero candidates_div7)
qed

theorem create_link_empty_custom_code_witness:
  "custom_code empty_request = Some [] \<and>
   create_link ''http://localhost:9500'' 40 (\<lambda>k. k div 7) empty_request [link_a] =
     create_link ''http://localhost:9500'' 40 (\<lambda>k. k div 7) gen_request [link_a] \<and>
   create_link ''http://localhost:9500'' 40 (\<lambda>k. k div 7) empty_request [link_a] =
     (Inr (short_link_response ''http://localhost:9500'' link_b), [link_a, link_b]) \<and>
   resp_short_code (short_link_response ''http://localhost:9500'' link_b) = ''bbbbbbb''"
proof -
  have h: "custom_code empty_request = Some []" by (simp add: empty_request_def)
  have e: "empty_request\<lparr>custom_code := None\<rparr> = gen_request"
    by (simp add: empty_request_def gen_request_def)
  from create_link_empty_custom_code [OF h, of "''http://localhost:9500''" 40
      "\<lambda>k. k div 7" "[link_a]"]
  have 1: "create_link ''http://localhost:9500'' 40 (\<lambda>k. k div 7) empty_request [link_a] =
     create_link ''http://localhost:9500'' 40 (\<lambda>k. k div 7) gen_request [link_a]"
    by (simp add: e)
  have "find (\<lambda>c. \<not> code_exists [link_a] c) (candidates 10 (\<lambda>k. k div 7)) = Some ''bbbbbbb''"
    unfolding candidates_div7 by (simp add: code_exists_def link_a_def)
  with create_link_generated [of gen_request "''http://localhost:9500''" 40
      "\<lambda>k. k div 7" "[link_a]"]
  have 2: "create_link ''http://localhost:9500'' 40 (\<lambda>k. k div 7) gen_request [link_a] =
     (Inr (short_link_response ''http://localhost:9500'' link_b), [link_a, link_b])"
    by (simp add: new_link_b) (simp add: gen_request_def)
  from h 1 2 show ?thesis
    by (simp add: short_link_response_def link_b_def)
qed

section \<open>The click invariant\<close>

lemma link_ok_new_link: "link_ok (new_link now c payload db)"
  by (simp add: link_ok_def clicked_iff_def new_link_def)

lemma link_ok_clicked: "link_ok l \<Longrightarrow> link_ok (clicked now l)"
  by (simp add: link_ok_def clicked_iff_def clicked_def)

lemma link_ok_deactivated: "link_ok l \<Longrightarrow> link_ok (l\<lparr>active := False\<rparr>)"
  by (simp add: link_ok_def clicked_iff_def)

lemma all_update:
  assumes "\<forall>l \<in> set db. P l" and "P x"
  shows "\<forall>l \<in> set (db[i := x]). P l"
  using assms set_update_subset_insert [of db i x] by auto

lemma redirect_link_ok:
  assumes "\<forall>l \<in> set db. link_ok l"
  shows "\<forall>l \<in> set (snd (redirect_link now code db)). link_ok l"
proof (cases "first_index (\<lambda>l. short_code l = code \<and> active l) db")
  case None
  with assms show ?thesis by (simp add: redirect_link_miss)
next
  case (Some i)
  from first_index_Some [OF Some] have "db ! i \<in> set db" by simp
  with assms have "link_ok (clicked now (db ! i))" by (simp add: link_ok_clicked)
  with assms show ?thesis
    unfolding redirect_link_hit [OF Some] snd_conv by (rule all_update)
qed

lemma deactivate_link_ok:
  assumes "\<forall>l \<in> set db. link_ok l"
  shows "\<forall>l \<in> set (snd (deactivate_link code db)). link_ok l"
proof (cases "first_index (\<lambda>l. short_code l = code) db")
  case None
  with assms show ?thesis by (simp add: deactivate_link_miss)
next
  case (Some i)
  from first_index_Some [OF Some] have "db ! i \<in> set db" by simp
  with assms have "link_ok ((db ! i)\<lparr>active := False\<rparr>)" by (simp add: link_ok_deactivated)
  with assms show ?thesis
    unfolding deactivate_link_hit [OF Some] snd_conv by (rule all_update)
qed

lemma create_link_ok:
  assumes "\<forall>l \<in> set db. link_ok l"
  shows "\<forall>l \<in> set (snd (create_link B now rnd payload db)). link_ok l"
  using assms create_link_store [of B now rnd payload db]
  by (auto simp: link_ok_new_link)

lemma handle_link_ok:
  assumes "\<forall>l \<in> set db. link_ok l"
  shows "\<forall>l \<in> set (handle B r db). link_ok l"
proof (cases r)
  case (Create now rnd payload)
  from create_link_ok [OF assms, of B now rnd payload] Create show ?thesis by simp
next
  case (Redirect now code)
  from redirect_link_ok [OF assms, of now code] Redirect show ?thesis by simp
next
  case (Stats code)
  with assms show ?thesis by simp
next
  case (ListLinks skip lim)
  with assms show ?thesis by simp
next
  case (Deactivate code)
  from deactivate_link_ok [OF assms, of code] Deactivate show ?thesis by simp
qed

lemma run_link_ok:
  "\<forall>l \<in> set db. link_ok l \<Longrightarrow> \<forall>l \<in> set (run B reqs db). link_ok l"
  unfolding run_def
proof (induction reqs arbitrary: db)
  case Nil
  then show ?case by simp
next
  case (Cons r reqs)
  from Cons.prems have "\<forall>l \<in> set (handle B r db). link_ok l" by (rule handle_link_ok)
  then have "\<forall>l \<in> set (fold (handle B) reqs (handle B r db)). link_ok l" by (rule Cons.IH)
  then show ?case by simp
qed

lemma create_link_cases:
  "(\<exists>e. create_link B now rnd payload db = (Inl e, db)) \<or>
   (\<exists>c. create_link B now rnd payload db =
      (Inr (short_link_response B (new_link now c payload db)),
       db @ [new_link now c payload db]))"
proof (cases "custom_code payload = None \<or> custom_code payload = Some []")
  case True
  from create_link_generated [OF True, of B now rnd db] show ?thesis
    by (cases "find (\<lambda>c. \<not> code_exists db c) (candidates 10 rnd)") auto
next
  case False
  then obtain c where c: "custom_code payload = Some c" "c \<noteq> []"
    by (cases "custom_code payload") auto
  from create_link_custom [OF c, of B now rnd db] show ?thesis
    by (cases "code_exists db c") auto
qed

lemma create_link_initial:
  assumes "create_link B now rnd payload db = (Inr resp, db1)"
  shows "resp_click_count resp = 0 \<and> resp_last_clicked_at resp = None \<and>
         butlast db1 = db \<and> click_count (last db1) = 0 \<and> last_clicked_at (last db1) = None"
proof -
  from create_link_cases [of B now rnd payload db] assms
  obtain c where "resp = short_link_response B (new_link now c payload db)"
    "db1 = db @ [new_link now c payload db]"
    by auto
  then show ?thesis
    by (simp add: short_link_response_def new_link_def)
qed

text \<open>
  C6. After every sequence of requests served from the empty table, every link has
  \<open>last_clicked_at\<close> non-null iff \<open>click_count > 0\<close>, and so it has after one more
  request of any kind. The invariant that is preserved step by step is this
  biconditional together with \<open>click_count\<close> not being negative: it holds after any
  sequence of requests from any table where it holds. A successful create appends one
  link with \<open>click_count = 0\<close> and \<open>last_clicked_at\<close> null, and returns these values.
\<close>

theorem last_clicked_iff_clicks:
  "(\<forall>l \<in> set (run B reqs []). clicked_iff l) \<and>
   (\<forall>l \<in> set (handle B r (run B reqs [])). clicked_iff l) \<and>
   ((\<forall>l \<in> set db. link_ok l) \<longrightarrow> (\<forall>l \<in> set (run B reqs db). link_ok l)) \<and>
   (\<forall>resp db1. create_link B now rnd payload db = (Inr resp, db1) \<longrightarrow>
      resp_click_count resp = 0 \<and> resp_last_clicked_at resp = None \<and>
      butlast db1 = db \<and> click_count (last db1) = 0 \<and> last_clicked_at (last db1) = None)"
proof -
  have ok: "\<forall>l \<in> set (run B reqs []). link_ok l"
    by (rule run_link_ok) simp
  then have 1: "\<forall>l \<in> set (run B reqs []). clicked_iff l"
    by (simp add: link_ok_def)
  from ok have "\<forall>l \<in> set (handle B r (run B reqs [])). link_ok l"
    by (rule handle_link_ok)
  then have 2: "\<forall>l \<in> set (handle B r (run B reqs [])). clicked_iff l"
    by (simp add: link_ok_def)
  have 3: "(\<forall>l \<in> set db. link_ok l) \<longrightarrow> (\<forall>l \<in> set (run B reqs db). link_ok l)"
    using run_link_ok [of db B reqs] by blast
  have 4: "\<forall>resp db1. create_link B now rnd payload db = (Inr resp, db1) \<longrightarrow>
      resp_click_count resp = 0 \<and> resp_last_clicked_at resp = None \<and>
      butlast db1 = db \<and> click_count (last db1) = 0 \<and> last_clicked_at (last db1) = None"
    using create_link_initial [of B now rnd payload db] by blast
  show ?thesis by (rule conjI [OF 1 conjI [OF 2 conjI [OF 3 4]]])
qed

lemma run_promo_session: "run ''http://localhost:9500'' promo_session [] = [promo_final]"
  by (simp add: run_def promo_session_def promo_final_def create_link_def add_commit_def
      redirect_link_def deactivate_link_def promo_request_def next_id_def Let_def)

theorem last_clicked_iff_clicks_witness:
  "run ''http://localhost:9500'' promo_session [] = [promo_final] \<and>
   click_count promo_final = 2 \<and> last_clicked_at promo_final = Some 55 \<and>
   clicked_iff promo_final"
  using last_clicked_iff_clicks [of "''http://localhost:9500''" promo_session]
  by (simp add: run_promo_session) (simp add: promo_final_def)

text \<open>
  Why the count's sign is part of the invariant: on a table holding a link with a
  negative count and no click time (no request produces one), the biconditional holds
  before a redirect and not after it.
\<close>

lemma redirect_link_negative_count:
  "clicked_iff link_negative \<and>
   snd (redirect_link 30 ''neg'' [link_negative]) =
     [link_negative\<lparr>click_count := 0, last_clicked_at := Some 30\<rparr>] \<and>
   \<not> clicked_iff (link_negative\<lparr>click_count := 0, last_clicked_at := Some 30\<rparr>)"
  by (simp add: clicked_iff_def link_negative_def redirect_link_def)

end
